theory Spec2Isabelle
  imports Main
begin

section \<open>Data model of server.js\<close>

text \<open>
  The two Mongoose schemas of server.js (UserSchema, PostSchema) become records. An
  ObjectId is represented by its canonical string (what \<^verbatim>\<open>toString()\<close> yields);
  identifiers carried by a request are such strings too, so casting is the identity and
  malformed identifiers are outside the model. Both schemas set \<^verbatim>\<open>timestamps: true\<close>,
  hence the two clock fields. A collection is the list of its documents in insertion
  order.
\<close>

type_synonym oid = string

datatype jval =
    JNull
  | JBool bool
  | JNum nat
  | JStr string
  | JArr "jval list"
  | JObj "(string \<times> jval) list"

record user =
  u_id :: oid
  username :: string
  email :: string
  password :: string
  profilePicture :: string
  friends :: "oid list"
  u_createdAt :: nat
  u_updatedAt :: nat

datatype privacy = Public | Friends | Private

record comment =
  c_userId :: "oid option"
  c_text :: string

record post =
  p_id :: oid
  userId :: oid
  content :: string
  p_image :: string
  likes :: "oid list"
  comments :: "comment list"
  privacy :: privacy
  p_createdAt :: nat
  p_updatedAt :: nat

record store =
  users :: "user list"
  posts :: "post list"

record response =
  status :: nat
  body :: jval

text \<open>
  Everything a handler can throw ends in the \<^verbatim>\<open>catch\<close> block, which forwards it to the
  error middleware.
\<close>

datatype error = ValidationError | DuplicateKey | TypeError

text \<open>
  bcryptjs, jsonwebtoken and \<^verbatim>\<open>process.env.JWT_SECRET\<close> are not part of server.js:
  they are parameters of the model. \<open>bhash env pw rounds salt\<close> stands for
  \<^verbatim>\<open>bcrypt.hash(pw, rounds)\<close> with the salt it draws, \<open>bcompare env pw h\<close> for
  \<^verbatim>\<open>bcrypt.compare(pw, h)\<close>, \<open>jsign env payload secret\<close> for \<^verbatim>\<open>jwt.sign\<close>.
\<close>

record env =
  bhash :: "string \<Rightarrow> nat \<Rightarrow> string \<Rightarrow> string"
  bcompare :: "string \<Rightarrow> string \<Rightarrow> bool"
  jsign :: "jval \<Rightarrow> string \<Rightarrow> string"
  jwt_secret :: string

section \<open>JSON views of the documents\<close>

definition privacy_str :: "privacy \<Rightarrow> string" where
  "privacy_str p = (case p of Public \<Rightarrow> ''Public'' | Friends \<Rightarrow> ''Friends'' | Private \<Rightarrow> ''Private'')"

definition ids_json :: "oid list \<Rightarrow> jval" where
  "ids_json xs = JArr (map JStr xs)"

definition user_doc :: "user \<Rightarrow> (string \<times> jval) list" where
  "user_doc u =
     [(''_id'', JStr (u_id u)),
      (''username'', JStr (username u)),
      (''email'', JStr (email u)),
      (''password'', JStr (password u)),
      (''profilePicture'', JStr (profilePicture u)),
      (''friends'', ids_json (friends u)),
      (''createdAt'', JNum (u_createdAt u)),
      (''updatedAt'', JNum (u_updatedAt u))]"

definition comment_doc :: "comment \<Rightarrow> jval" where
  "comment_doc c =
     JObj [(''userId'', (case c_userId c of None \<Rightarrow> JNull | Some i \<Rightarrow> JStr i)),
           (''text'', JStr (c_text c))]"

definition post_doc :: "post \<Rightarrow> (string \<times> jval) list" where
  "post_doc p =
     [(''_id'', JStr (p_id p)),
      (''userId'', JStr (userId p)),
      (''content'', JStr (content p)),
      (''image'', JStr (p_image p)),
      (''likes'', ids_json (likes p)),
      (''comments'', JArr (map comment_doc (comments p))),
      (''privacy'', JStr (privacy_str (privacy p))),
      (''createdAt'', JNum (p_createdAt p)),
      (''updatedAt'', JNum (p_updatedAt p))]"

text \<open>
  An inclusive projection (\<^verbatim>\<open>"_id username profilePicture"\<close>, \<^verbatim>\<open>'username'\<close>) keeps
  the named paths and the identifier; \<^verbatim>\<open>select('-password')\<close> drops the named paths.
\<close>

definition select_fields :: "string list \<Rightarrow> (string \<times> jval) list \<Rightarrow> (string \<times> jval) list" where
  "select_fields fs d = filter (\<lambda>kv. fst kv = ''_id'' \<or> fst kv \<in> set fs) d"

definition exclude_fields :: "string list \<Rightarrow> (string \<times> jval) list \<Rightarrow> (string \<times> jval) list" where
  "exclude_fields fs d = filter (\<lambda>kv. fst kv \<notin> set fs) d"

definition set_field :: "string \<Rightarrow> jval \<Rightarrow> (string \<times> jval) list \<Rightarrow> (string \<times> jval) list" where
  "set_field k v d = map (\<lambda>kv. if fst kv = k then (k, v) else kv) d"

section \<open>Collection operations\<close>

definition findById_user :: "oid \<Rightarrow> user list \<Rightarrow> user option" where
  "findById_user i us = List.find (\<lambda>u. u_id u = i) us"

definition findById_post :: "oid \<Rightarrow> post list \<Rightarrow> post option" where
  "findById_post i ps = List.find (\<lambda>p. p_id p = i) ps"

definition findOne :: "('a \<Rightarrow> bool) \<Rightarrow> 'a list \<Rightarrow> 'a option" where
  "findOne P xs = List.find P xs"

fun update_first :: "('a \<Rightarrow> bool) \<Rightarrow> ('a \<Rightarrow> 'a) \<Rightarrow> 'a list \<Rightarrow> 'a list" where
  "update_first P f [] = []"
| "update_first P f (x # xs) = (if P x then f x # xs else x # update_first P f xs)"

fun remove_first :: "('a \<Rightarrow> bool) \<Rightarrow> 'a list \<Rightarrow> 'a list" where
  "remove_first P [] = []"
| "remove_first P (x # xs) = (if P x then xs else x # remove_first P xs)"

text \<open>
  \<^verbatim>\<open>populate(path, fields)\<close> replaces a reference by the projected document it points
  to, and by null when no such document is stored.
\<close>

definition populate :: "user list \<Rightarrow> string list \<Rightarrow> oid \<Rightarrow> jval" where
  "populate us fs i =
     (case findById_user i us of
        None \<Rightarrow> JNull
      | Some u \<Rightarrow> JObj (select_fields fs (user_doc u)))"

section \<open>Responses\<close>

definition json :: "nat \<Rightarrow> jval \<Rightarrow> response" where
  "json code v = \<lparr>status = code, body = v\<rparr>"

definition error_json :: "nat \<Rightarrow> string \<Rightarrow> response" where
  "error_json code msg = json code (JObj [(''error'', JStr msg)])"

text \<open>The error middleware at the end of server.js: every forwarded error is a 500.\<close>

definition errorHandler :: "error \<Rightarrow> response" where
  "errorHandler err = error_json 500 ''Internal Server Error''"

section \<open>Saving new documents\<close>

text \<open>
  \<^verbatim>\<open>newUser.save()\<close> validates the document against UserSchema and inserts it.
  The three paths marked \<^verbatim>\<open>required: true\<close> are strings, and the required-validator
  of a string path rejects the empty string. The insert is refused when the
  identifier, or a path indexed \<^verbatim>\<open>unique: true\<close>, is already present.
\<close>

definition saveNewUser :: "user \<Rightarrow> store \<Rightarrow> error + store" where
  "saveNewUser u st =
     (if username u = [] \<or> email u = [] \<or> password u = [] then Inl ValidationError
      else if u_id u \<in> set (map u_id (users st))
              \<or> username u \<in> set (map username (users st))
              \<or> email u \<in> set (map email (users st)) then Inl DuplicateKey
      else Inr (st\<lparr>users := users st @ [u]\<rparr>))"

text \<open>
  PostSchema: \<^verbatim>\<open>content\<close> is required and trimmed by its setter before validation,
  \<^verbatim>\<open>privacy\<close> must be one of the three enumerated strings and defaults to Public,
  \<^verbatim>\<open>image\<close> defaults to the empty string.

  A string is the UTF-8 byte sequence of the JavaScript string. The setter is
  \<^verbatim>\<open>String.prototype.trim\<close>, which strips white space and line terminators at both
  ends: U+0009 to U+000D, U+0020, U+00A0, U+1680, U+2000 to U+200A, U+2028, U+2029,
  U+202F, U+205F, U+3000 and U+FEFF, listed here by their encodings.
\<close>

definition ws_seqs :: "string list" where
  "ws_seqs =
     [[CHR 0x09], [CHR 0x0A], [CHR 0x0B], [CHR 0x0C], [CHR 0x0D], [CHR 0x20],
      [CHR 0xC2, CHR 0xA0],
      [CHR 0xE1, CHR 0x9A, CHR 0x80],
      [CHR 0xE2, CHR 0x80, CHR 0x80], [CHR 0xE2, CHR 0x80, CHR 0x81],
      [CHR 0xE2, CHR 0x80, CHR 0x82], [CHR 0xE2, CHR 0x80, CHR 0x83],
      [CHR 0xE2, CHR 0x80, CHR 0x84], [CHR 0xE2, CHR 0x80, CHR 0x85],
      [CHR 0xE2, CHR 0x80, CHR 0x86], [CHR 0xE2, CHR 0x80, CHR 0x87],
      [CHR 0xE2, CHR 0x80, CHR 0x88], [CHR 0xE2, CHR 0x80, CHR 0x89],
      [CHR 0xE2, CHR 0x80, CHR 0x8A],
      [CHR 0xE2, CHR 0x80, CHR 0xA8], [CHR 0xE2, CHR 0x80, CHR 0xA9],
      [CHR 0xE2, CHR 0x80, CHR 0xAF],
      [CHR 0xE2, CHR 0x81, CHR 0x9F],
      [CHR 0xE3, CHR 0x80, CHR 0x80],
      [CHR 0xEF, CHR 0xBB, CHR 0xBF]]"

function strip_leading :: "string list \<Rightarrow> string \<Rightarrow> string" where
  "strip_leading seqs s =
     (case List.find (\<lambda>q. q \<noteq> [] \<and> take (length q) s = q) seqs of
        None \<Rightarrow> s
      | Some q \<Rightarrow> strip_leading seqs (drop (length q) s))"
  by pat_completeness auto
termination
proof (relation "measure (\<lambda>(seqs, s). length s)")
  show "wf (measure (\<lambda>(seqs, s). length s))" by simp
next
  fix seqs :: "string list" and s q :: string
  assume "List.find (\<lambda>q. q \<noteq> [] \<and> take (length q) s = q) seqs = Some q"
  then have q: "q \<noteq> []" and t: "take (length q) s = q"
    by (auto simp: find_Some_iff)
  from t have "length (take (length q) s) = length q" by simp
  then have "length q \<le> length s" by (simp add: min_def split: if_splits)
  with q show "((seqs, drop (length q) s), (seqs, s)) \<in> measure (\<lambda>(seqs, s). length s)"
    by (cases q) auto
qed

declare strip_leading.simps [simp del]

definition trim :: "string \<Rightarrow> string" where
  "trim s = rev (strip_leading (map rev ws_seqs) (rev (strip_leading ws_seqs s)))"

definition cast_privacy :: "string option \<Rightarrow> error + privacy" where
  "cast_privacy v =
     (case v of
        None \<Rightarrow> Inr Public
      | Some s \<Rightarrow>
          if s = ''Public'' then Inr Public
          else if s = ''Friends'' then Inr Friends
          else if s = ''Private'' then Inr Private
          else Inl ValidationError)"

definition saveNewPost :: "post \<Rightarrow> store \<Rightarrow> error + store" where
  "saveNewPost p st =
     (if content p = [] then Inl ValidationError
      else if p_id p \<in> set (map p_id (posts st)) then Inl DuplicateKey
      else Inr (st\<lparr>posts := posts st @ [p]\<rparr>))"

section \<open>Route handlers\<close>

text \<open>
  Each handler takes what the request carries and, where it writes, the clock value and
  the ObjectId or salt that the libraries draw; it returns the response, with the new
  store when the route can write. The fields a route destructures from the request are
  strings that are present; only the two optional fields of POST /posts may be absent.
\<close>

text \<open>POST /signup\<close>

definition signup ::
  "env \<Rightarrow> oid \<Rightarrow> nat \<Rightarrow> string \<Rightarrow> string \<Rightarrow> string \<Rightarrow> string \<Rightarrow> store \<Rightarrow> store \<times> response" where
  "signup env newId now salt uname mail pw st =
     (case findOne (\<lambda>u. email u = mail) (users st) of
        Some existingEmail \<Rightarrow> (st, error_json 400 ''Email already registered'')
      | None \<Rightarrow>
          (case findOne (\<lambda>u. username u = uname) (users st) of
             Some existingUsername \<Rightarrow> (st, error_json 400 ''Username already taken'')
           | None \<Rightarrow>
               (let hashedPassword = bhash env pw 10 salt;
                    newUser = \<lparr>u_id = newId, username = uname, email = mail,
                               password = hashedPassword, profilePicture = [], friends = [],
                               u_createdAt = now, u_updatedAt = now\<rparr>
                in case saveNewUser newUser st of
                     Inl err \<Rightarrow> (st, errorHandler err)
                   | Inr st' \<Rightarrow>
                       (st', json 201 (JObj [(''message'', JStr ''User registered successfully'')])))))"

text \<open>POST /login. The token's payload is \<open>{id}\<close> plus the issue and expiry times in seconds.\<close>

definition token_payload :: "oid \<Rightarrow> nat \<Rightarrow> jval" where
  "token_payload i now =
     JObj [(''id'', JStr i), (''iat'', JNum (now div 1000)), (''exp'', JNum (now div 1000 + 3600))]"

definition login :: "env \<Rightarrow> nat \<Rightarrow> string \<Rightarrow> string \<Rightarrow> store \<Rightarrow> response" where
  "login env now mail pw st =
     (case findOne (\<lambda>u. email u = mail) (users st) of
        None \<Rightarrow> error_json 400 ''User not found''
      | Some u \<Rightarrow>
          if \<not> bcompare env pw (password u) then error_json 400 ''Invalid credentials''
          else json 200 (JObj [(''token'', JStr (jsign env (token_payload (u_id u) now) (jwt_secret env))),
                               (''user'', JObj (user_doc u))]))"

text \<open>POST /posts\<close>

definition createPost ::
  "oid \<Rightarrow> nat \<Rightarrow> oid \<Rightarrow> string \<Rightarrow> string option \<Rightarrow> string option \<Rightarrow> store \<Rightarrow> store \<times> response" where
  "createPost newId now uid cont img priv st =
     (case cast_privacy priv of
        Inl err \<Rightarrow> (st, errorHandler err)
      | Inr pv \<Rightarrow>
          (let newPost = \<lparr>p_id = newId, userId = uid, content = trim cont,
                          p_image = (case img of None \<Rightarrow> [] | Some i \<Rightarrow> i),
                          likes = [], comments = [], privacy = pv,
                          p_createdAt = now, p_updatedAt = now\<rparr>
           in case saveNewPost newPost st of
                Inl err \<Rightarrow> (st, errorHandler err)
              | Inr st' \<Rightarrow>
                  (st', json 201
                     (case findById_post newId (posts st') of
                        None \<Rightarrow> JNull
                      | Some q \<Rightarrow>
                          JObj (set_field ''userId''
                                  (populate (users st') [''username'', ''profilePicture''] (userId q))
                                  (post_doc q))))))"

text \<open>GET /posts\<close>

definition listPosts :: "store \<Rightarrow> response" where
  "listPosts st =
     json 200 (JArr (map (\<lambda>p. JObj (set_field ''userId''
                                        (populate (users st) [''username''] (userId p))
                                        (post_doc p)))
                         (posts st)))"

text \<open>
  POST /post/like. A missing post makes \<^verbatim>\<open>post.likes\<close> throw; \<^verbatim>\<open>push\<close> appends,
  \<^verbatim>\<open>$pull\<close> removes every occurrence.
\<close>

definition toggleLike :: "nat \<Rightarrow> oid \<Rightarrow> oid \<Rightarrow> store \<Rightarrow> store \<times> response" where
  "toggleLike now uid postId st =
     (case findById_post postId (posts st) of
        None \<Rightarrow> (st, errorHandler TypeError)
      | Some p \<Rightarrow>
          if uid \<notin> set (likes p)
          then (st\<lparr>posts := update_first (\<lambda>q. p_id q = postId)
                               (\<lambda>q. q\<lparr>likes := likes q @ [uid], p_updatedAt := now\<rparr>) (posts st)\<rparr>,
                json 200 (JObj (post_doc (p\<lparr>likes := likes p @ [uid], p_updatedAt := now\<rparr>))))
          else
            (let ps' = update_first (\<lambda>q. p_id q = postId)
                         (\<lambda>q. q\<lparr>likes := removeAll uid (likes q), p_updatedAt := now\<rparr>) (posts st)
             in case findById_post postId ps' of
                  None \<Rightarrow> (st\<lparr>posts := ps'\<rparr>, errorHandler TypeError)
                | Some p' \<Rightarrow> (st\<lparr>posts := ps'\<rparr>, json 200 (JObj (post_doc p')))))"

text \<open>DELETE /posts/:postId\<close>

definition deletePost :: "oid \<Rightarrow> oid \<Rightarrow> store \<Rightarrow> store \<times> response" where
  "deletePost postId uid st =
     (case findById_post postId (posts st) of
        None \<Rightarrow> (st, error_json 404 ''Post not found'')
      | Some p \<Rightarrow>
          if userId p \<noteq> uid
          then (st, error_json 403 ''You can only delete your own posts'')
          else (st\<lparr>posts := remove_first (\<lambda>q. p_id q = postId) (posts st)\<rparr>,
                json 200 (JObj [(''message'', JStr ''Post deleted successfully''),
                                (''postId'', JStr postId)])))"

text \<open>GET /users\<close>

definition listUsers :: "oid \<Rightarrow> store \<Rightarrow> response" where
  "listUsers uid st =
     json 200 (JArr (map (\<lambda>u. JObj (select_fields [''_id'', ''username'', ''profilePicture''] (user_doc u)))
                         (filter (\<lambda>u. u_id u \<noteq> uid) (users st))))"

text \<open>POST /add-friend. A missing user makes \<^verbatim>\<open>user.friends\<close> throw.\<close>

definition addFriend :: "nat \<Rightarrow> oid \<Rightarrow> oid \<Rightarrow> store \<Rightarrow> store \<times> response" where
  "addFriend now uid friendId st =
     (case findById_user uid (users st) of
        None \<Rightarrow> (st, errorHandler TypeError)
      | Some u \<Rightarrow>
          (if friendId \<notin> set (friends u)
           then st\<lparr>users := update_first (\<lambda>v. u_id v = uid)
                              (\<lambda>v. v\<lparr>friends := friends v @ [friendId], u_updatedAt := now\<rparr>) (users st)\<rparr>
           else st,
           json 200 (JObj [(''success'', JBool True), (''message'', JStr ''Friend Added'')])))"

text \<open>
  GET /user/:userId/friends. Populating an array keeps, in order, the referenced
  documents that exist.
\<close>

definition listFriends :: "oid \<Rightarrow> store \<Rightarrow> response" where
  "listFriends uid st =
     (case findById_user uid (users st) of
        None \<Rightarrow> error_json 404 ''User not found''
      | Some u \<Rightarrow>
          json 200 (JArr (concat (map (\<lambda>i. case findById_user i (users st) of
                                               None \<Rightarrow> []
                                             | Some f \<Rightarrow> [JObj (select_fields [''username'', ''profilePicture'']
                                                                  (user_doc f))])
                                      (friends u)))))"

text \<open>PUT /users/:id/profile-picture\<close>

definition updateProfilePicture :: "nat \<Rightarrow> oid \<Rightarrow> string \<Rightarrow> store \<Rightarrow> store \<times> response" where
  "updateProfilePicture now i pic st =
     (let us' = update_first (\<lambda>v. u_id v = i)
                  (\<lambda>v. v\<lparr>profilePicture := pic, u_updatedAt := now\<rparr>) (users st)
      in case findById_user i us' of
           None \<Rightarrow> (st, json 404 (JObj [(''success'', JBool False), (''message'', JStr ''User not found'')]))
         | Some u \<Rightarrow>
             (st\<lparr>users := us'\<rparr>,
              json 200 (JObj [(''success'', JBool True),
                              (''message'', JStr ''Profile picture updated successfully''),
                              (''user'', JObj (user_doc u))])))"

text \<open>GET /user/:id\<close>

definition getUserProfile :: "oid \<Rightarrow> store \<Rightarrow> response" where
  "getUserProfile i st =
     json 200 (case findById_user i (users st) of
                 None \<Rightarrow> JNull
               | Some u \<Rightarrow> JObj (exclude_fields [''password''] (user_doc u)))"

section \<open>The server as a transition system\<close>

datatype request =
    Signup oid nat string string string string
  | Login nat string string
  | CreatePost oid nat oid string "string option" "string option"
  | ListPosts
  | ToggleLike nat oid oid
  | DeletePost oid oid
  | ListUsers oid
  | AddFriend nat oid oid
  | ListFriends oid
  | UpdateProfilePicture nat oid string
  | GetUserProfile oid

fun handle :: "env \<Rightarrow> request \<Rightarrow> store \<Rightarrow> store \<times> response" where
  "handle env (Signup newId now salt uname mail pw) st = signup env newId now salt uname mail pw st"
| "handle env (Login now mail pw) st = (st, login env now mail pw st)"
| "handle env (CreatePost newId now uid cont img priv) st = createPost newId now uid cont img priv st"
| "handle env ListPosts st = (st, listPosts st)"
| "handle env (ToggleLike now uid postId) st = toggleLike now uid postId st"
| "handle env (DeletePost postId uid) st = deletePost postId uid st"
| "handle env (ListUsers uid) st = (st, listUsers uid st)"
| "handle env (AddFriend now uid friendId) st = addFriend now uid friendId st"
| "handle env (ListFriends uid) st = (st, listFriends uid st)"
| "handle env (UpdateProfilePicture now i pic) st = updateProfilePicture now i pic st"
| "handle env (GetUserProfile i) st = (st, getUserProfile i st)"

definition empty_store :: store where
  "empty_store = \<lparr>users = [], posts = []\<rparr>"

fun run :: "env \<Rightarrow> request list \<Rightarrow> store \<Rightarrow> store" where
  "run env [] st = st"
| "run env (r # rs) st = run env rs (fst (handle env r st))"

definition reachable :: "env \<Rightarrow> store \<Rightarrow> bool" where
  "reachable env st = (\<exists>rs. st = run env rs empty_store)"

text \<open>What the database and the schemas maintain for every stored document.\<close>

definition wf_store :: "store \<Rightarrow> bool" where
  "wf_store st =
     (distinct (map u_id (users st)) \<and> distinct (map username (users st))
      \<and> distinct (map email (users st)) \<and> distinct (map p_id (posts st))
      \<and> list_all (\<lambda>u. distinct (friends u) \<and> username u \<noteq> [] \<and> email u \<noteq> [] \<and> password u \<noteq> [])
           (users st)
      \<and> list_all (\<lambda>p. distinct (likes p) \<and> content p \<noteq> []) (posts st))"

text \<open>Stand-ins for the libraries, used to evaluate the handlers on concrete requests.\<close>

definition demo_env :: env where
  "demo_env = \<lparr>bhash = (\<lambda>pw rounds salt. ''$2a$10$'' @ salt @ pw),
               bcompare = (\<lambda>pw h. drop 9 h = pw),
               jsign = (\<lambda>payload secret. ''signed''),
               jwt_secret = ''secret''\<rparr>"

definition demo_requests :: "request list" where
  "demo_requests =
     [Signup ''u1'' 1 ''na'' ''alice'' ''alice@example.com'' ''hunter2'',
      Signup ''u2'' 2 ''cl'' ''bob'' ''bob@example.com'' ''swordfish'',
      CreatePost ''p1'' 3 ''u1'' ''hello'' None (Some ''Private''),
      ToggleLike 4 ''u1'' ''p1'',
      ToggleLike 5 ''u2'' ''p1'']"

definition alice :: user where
  "alice = \<lparr>u_id = ''u1'', username = ''alice'', email = ''alice@example.com'',
             password = ''$2a$10$nahunter2'', profilePicture = [], friends = [],
             u_createdAt = 1, u_updatedAt = 1\<rparr>"

definition bob :: user where
  "bob = \<lparr>u_id = ''u2'', username = ''bob'', email = ''bob@example.com'',
           password = ''$2a$10$clswordfish'', profilePicture = [], friends = [],
           u_createdAt = 2, u_updatedAt = 2\<rparr>"

definition hello_post :: post where
  "hello_post = \<lparr>p_id = ''p1'', userId = ''u1'', content = ''hello'', p_image = [],
                  likes = [''u1'', ''u2''], comments = [], privacy = Private,
                  p_createdAt = 3, p_updatedAt = 5\<rparr>"

definition demo_store :: store where
  "demo_store = \<lparr>users = [alice, bob], posts = [hello_post]\<rparr>"

section \<open>Lemmas about the collection operations\<close>

lemma remove_first_subset: "set (remove_first P xs) \<subseteq> set xs"
  by (induction xs) auto

lemma remove_first_distinct_gone:
  "distinct (map f xs) \<Longrightarrow> List.find (\<lambda>q. f q = k) (remove_first (\<lambda>q. f q = k) xs) = None"
proof (induction xs)
  case Nil
  then show ?case by simp
next
  case (Cons x xs)
  show ?case
  proof (cases "f x = k")
    case True
    with Cons.prems have "k \<notin> f ` set xs" by auto
    then have "List.find (\<lambda>q. f q = k) xs = None"
      by (auto simp: find_None_iff)
    with True show ?thesis by simp
  next
    case False
    with Cons show ?thesis by simp
  qed
qed

lemma remove_first_filter:
  "distinct (map f xs) \<Longrightarrow> remove_first (\<lambda>q. f q = k) xs = filter (\<lambda>q. f q \<noteq> k) xs"
proof (induction xs)
  case Nil
  then show ?case by simp
next
  case (Cons x xs)
  show ?case
  proof (cases "f x = k")
    case True
    from Cons.prems have "f x \<notin> f ` set xs" by simp
    with True have "\<forall>q\<in>set xs. f q \<noteq> k" by (metis imageI)
    then have "filter (\<lambda>q. f q \<noteq> k) xs = xs" by (simp add: filter_id_conv)
    with True show ?thesis by simp
  next
    case False
    with Cons show ?thesis by simp
  qed
qed

lemma map_update_first:
  "(\<And>x. g (f x) = g x) \<Longrightarrow> map g (update_first P f xs) = map g xs"
  by (induction xs) auto

lemma list_all_update_first_found:
  "List.find P xs = Some p \<Longrightarrow> list_all Q xs \<Longrightarrow> Q (f p) \<Longrightarrow> list_all Q (update_first P f xs)"
  by (induction xs) (auto split: if_splits)

lemma list_all_update_first:
  "list_all Q xs \<Longrightarrow> (\<And>x. Q x \<Longrightarrow> P x \<Longrightarrow> Q (f x)) \<Longrightarrow> list_all Q (update_first P f xs)"
  by (induction xs) auto

lemma find_update_first:
  "(\<And>x. P x \<Longrightarrow> P (f x)) \<Longrightarrow> List.find P (update_first P f xs) = map_option f (List.find P xs)"
  by (induction xs) auto

lemma list_all_remove_first:
  "list_all Q xs \<Longrightarrow> list_all Q (remove_first P xs)"
  by (induction xs) auto

lemma distinct_map_remove_first:
  "distinct (map g xs) \<Longrightarrow> distinct (map g (remove_first P xs))"
proof (induction xs)
  case Nil
  then show ?case by simp
next
  case (Cons x xs)
  have "set (remove_first P xs) \<subseteq> set xs" by (rule remove_first_subset)
  with Cons show ?case by auto
qed

lemma find_None_map: "(List.find (\<lambda>x. g x = k) xs = None) = (k \<notin> set (map g xs))"
  by (auto simp: find_None_iff)


lemma find_unique_key:
  "distinct (map g xs) \<Longrightarrow> x \<in> set xs \<Longrightarrow> List.find (\<lambda>y. g y = g x) xs = Some x"
proof (induction xs)
  case Nil
  then show ?case by simp
next
  case (Cons a xs)
  show ?case
  proof (cases "g a = g x")
    case True
    from Cons.prems have "g a \<notin> g ` set xs" by simp
    with True have "x \<notin> set xs" by (metis imageI)
    with Cons.prems have "a = x" by simp
    with True show ?thesis by simp
  next
    case False
    with Cons show ?thesis by auto
  qed
qed


lemma find_update_first_other:
  "(\<And>x. Q (f x) = Q x) \<Longrightarrow> (\<And>x. P x \<Longrightarrow> \<not> Q x) \<Longrightarrow>
     List.find Q (update_first P f xs) = List.find Q xs"
  by (induction xs) auto

lemma count_list_distinct: "distinct xs \<Longrightarrow> x \<in> set xs \<Longrightarrow> count_list xs x = 1"
  by (induction xs) (auto simp: count_list_0_iff)



lemma update_first_map:
  "distinct (map g xs) \<Longrightarrow>
     update_first (\<lambda>v. g v = k) f xs = map (\<lambda>v. if g v = k then f v else v) xs"
proof (induction xs)
  case Nil
  then show ?case by simp
next
  case (Cons x xs)
  show ?case
  proof (cases "g x = k")
    case True
    from Cons.prems have "g x \<notin> g ` set xs" by simp
    with True have "\<forall>v\<in>set xs. g v \<noteq> k" by (metis imageI)
    then have "map (\<lambda>v. if g v = k then f v else v) xs = xs"
      by (induction xs) auto
    with True show ?thesis by simp
  next
    case False
    with Cons show ?thesis by simp
  qed
qed


section \<open>The stored documents stay well-formed\<close>

text \<open>
  Every handler keeps \<open>wf_store\<close>, so every store reached from the empty one by any
  sequence of requests satisfies it. The claims below assume of the store at most a part
  of this invariant (identifiers, or emails, pairwise different; a friends list without
  duplicates).
\<close>

lemma wf_signup: "wf_store st \<Longrightarrow> wf_store (fst (signup env newId now salt uname mail pw st))"
  by (auto simp: signup_def saveNewUser_def wf_store_def Let_def split: option.splits)

lemma wf_createPost: "wf_store st \<Longrightarrow> wf_store (fst (createPost newId now uid cont img priv st))"
  by (auto simp: createPost_def saveNewPost_def wf_store_def Let_def split: sum.splits)

lemma wf_toggleLike:
  assumes wf: "wf_store st"
  shows "wf_store (fst (toggleLike now uid postId st))"
proof (cases "findById_post postId (posts st)")
  case None
  with wf show ?thesis by (simp add: toggleLike_def)
next
  case (Some p)
  then have fnd: "List.find (\<lambda>q. p_id q = postId) (posts st) = Some p"
    by (simp add: findById_post_def)
  then have pin: "p \<in> set (posts st)" by (auto simp: find_Some_iff)
  from wf have all: "list_all (\<lambda>p. distinct (likes p) \<and> content p \<noteq> []) (posts st)"
    by (simp add: wf_store_def)
  with pin have pok: "distinct (likes p) \<and> content p \<noteq> []" by (auto simp: list_all_iff)
  show ?thesis
  proof (cases "uid \<in> set (likes p)")
    case True
    have "list_all (\<lambda>p. distinct (likes p) \<and> content p \<noteq> [])
            (update_first (\<lambda>q. p_id q = postId)
               (\<lambda>q. q\<lparr>likes := removeAll uid (likes q), p_updatedAt := now\<rparr>) (posts st))"
      by (rule list_all_update_first_found[OF fnd all]) (use pok in \<open>simp add: distinct_removeAll\<close>)
    with wf Some True show ?thesis
      by (auto simp: toggleLike_def wf_store_def Let_def map_update_first split: option.splits)
  next
    case False
    have "list_all (\<lambda>p. distinct (likes p) \<and> content p \<noteq> [])
            (update_first (\<lambda>q. p_id q = postId)
               (\<lambda>q. q\<lparr>likes := likes q @ [uid], p_updatedAt := now\<rparr>) (posts st))"
      by (rule list_all_update_first_found[OF fnd all]) (use pok False in simp)
    with wf Some False show ?thesis
      by (auto simp: toggleLike_def wf_store_def Let_def map_update_first split: option.splits)
  qed
qed

lemma wf_deletePost: "wf_store st \<Longrightarrow> wf_store (fst (deletePost postId uid st))"
  by (auto simp: deletePost_def wf_store_def distinct_map_remove_first list_all_remove_first
           split: option.splits)

lemma wf_addFriend:
  assumes wf: "wf_store st"
  shows "wf_store (fst (addFriend now uid friendId st))"
proof (cases "findById_user uid (users st)")
  case None
  with wf show ?thesis by (simp add: addFriend_def)
next
  case (Some u)
  then have fnd: "List.find (\<lambda>v. u_id v = uid) (users st) = Some u"
    by (simp add: findById_user_def)
  then have uin: "u \<in> set (users st)" by (auto simp: find_Some_iff)
  from wf have all: "list_all (\<lambda>u. distinct (friends u) \<and> username u \<noteq> [] \<and> email u \<noteq> [] \<and> password u \<noteq> []) (users st)"
    by (simp add: wf_store_def)
  with uin have uok: "distinct (friends u) \<and> username u \<noteq> [] \<and> email u \<noteq> [] \<and> password u \<noteq> []"
    by (auto simp: list_all_iff)
  show ?thesis
  proof (cases "friendId \<in> set (friends u)")
    case True
    with wf Some show ?thesis by (simp add: addFriend_def)
  next
    case False
    have "list_all (\<lambda>u. distinct (friends u) \<and> username u \<noteq> [] \<and> email u \<noteq> [] \<and> password u \<noteq> [])
            (update_first (\<lambda>v. u_id v = uid)
               (\<lambda>v. v\<lparr>friends := friends v @ [friendId], u_updatedAt := now\<rparr>) (users st))"
      by (rule list_all_update_first_found[OF fnd all]) (use uok False in simp)
    with wf Some False show ?thesis
      by (auto simp: addFriend_def wf_store_def map_update_first)
  qed
qed

lemma wf_updateProfilePicture:
  assumes wf: "wf_store st"
  shows "wf_store (fst (updateProfilePicture now i pic st))"
proof -
  have "list_all (\<lambda>u. distinct (friends u) \<and> username u \<noteq> [] \<and> email u \<noteq> [] \<and> password u \<noteq> [])
          (update_first (\<lambda>v. u_id v = i) (\<lambda>v. v\<lparr>profilePicture := pic, u_updatedAt := now\<rparr>) (users st))"
    using wf by (intro list_all_update_first) (auto simp: wf_store_def)
  with wf show ?thesis
    by (auto simp: updateProfilePicture_def wf_store_def Let_def map_update_first split: option.splits)
qed

lemma wf_handle: "wf_store st \<Longrightarrow> wf_store (fst (handle env r st))"
  by (cases r) (simp_all add: wf_signup wf_createPost wf_toggleLike wf_deletePost wf_addFriend
                  wf_updateProfilePicture)

lemma wf_run: "wf_store st \<Longrightarrow> wf_store (run env rs st)"
  by (induction rs arbitrary: st) (simp_all add: wf_handle)

lemma reachable_wf_store: "reachable env st \<Longrightarrow> wf_store st"
  by (auto simp: reachable_def intro!: wf_run) (simp add: wf_store_def empty_store_def)

section \<open>The sample store is one the server reaches\<close>

lemma demo_store_run: "run demo_env demo_requests empty_store = demo_store"
  by (simp add: demo_requests_def demo_env_def empty_store_def demo_store_def alice_def bob_def
        hello_post_def signup_def createPost_def toggleLike_def saveNewUser_def saveNewPost_def
        findOne_def findById_post_def cast_privacy_def trim_def ws_seqs_def strip_leading.simps Let_def)

lemma demo_store_reachable: "reachable demo_env demo_store"
  unfolding reachable_def using demo_store_run by metis

lemma demo_store_wf: "wf_store demo_store"
  using demo_store_reachable by (rule reachable_wf_store)

text \<open>Content that is nothing but white space, here one NO-BREAK SPACE, is rejected.\<close>

lemma createPost_blank_content:
  "createPost ''p9'' 6 ''u1'' [CHR 0xC2, CHR 0xA0] None None demo_store
     = (demo_store, error_json 500 ''Internal Server Error'')"
  by (simp add: createPost_def cast_privacy_def saveNewPost_def errorHandler_def
        trim_def ws_seqs_def strip_leading.simps Let_def)


section \<open>Claims\<close>

text \<open>
  C1. DELETE /posts/:postId answers 404 and changes nothing when no post has the given
  id; answers 403 and changes nothing (the post is still stored and still listed) when
  the supplied user id differs from the post's owner reference; and when it equals the
  owner the post, and only that post, is removed and the answer is 200. Identifiers of
  stored posts are pairwise different, as the database guarantees for \<^verbatim>\<open>_id\<close>.
\<close>

theorem deletePost_guards:
  assumes "distinct (map p_id (posts st))"
  shows "(findById_post postId (posts st) = None \<longrightarrow>
            deletePost postId uid st = (st, error_json 404 ''Post not found''))
       \<and> (\<forall>p. findById_post postId (posts st) = Some p \<and> userId p \<noteq> uid \<longrightarrow>
            deletePost postId uid st = (st, error_json 403 ''You can only delete your own posts'')
            \<and> p \<in> set (posts (fst (deletePost postId uid st)))
            \<and> listPosts (fst (deletePost postId uid st)) = listPosts st)
       \<and> (\<forall>p. findById_post postId (posts st) = Some p \<and> userId p = uid \<longrightarrow>
            status (snd (deletePost postId uid st)) = 200
            \<and> findById_post postId (posts (fst (deletePost postId uid st))) = None
            \<and> posts (fst (deletePost postId uid st)) = filter (\<lambda>q. p_id q \<noteq> postId) (posts st)
            \<and> users (fst (deletePost postId uid st)) = users st)
       \<and> (\<forall>p. findById_post postId (posts st) = Some p \<longrightarrow>
            (findById_post postId (posts (fst (deletePost postId uid st))) = None
               \<longleftrightarrow> userId p = uid))"
proof -
  have gone: "findById_post postId (remove_first (\<lambda>q. p_id q = postId) (posts st)) = None"
    unfolding findById_post_def using assms by (rule remove_first_distinct_gone)
  have flt: "remove_first (\<lambda>q. p_id q = postId) (posts st) = filter (\<lambda>q. p_id q \<noteq> postId) (posts st)"
    using assms by (rule remove_first_filter)
  have mem: "\<And>p. findById_post postId (posts st) = Some p \<Longrightarrow> p \<in> set (posts st)"
    by (auto simp: findById_post_def find_Some_iff)
  show ?thesis
    using gone flt mem
    by (auto simp: deletePost_def json_def split: option.splits)
qed

theorem deletePost_guards_witness:
  "deletePost ''p1'' ''u2''
     \<lparr>users = [],
      posts = [\<lparr>p_id = ''p1'', userId = ''u1'', content = ''hello'', p_image = '''', likes = [],
                comments = [], privacy = Private, p_createdAt = 1, p_updatedAt = 1\<rparr>]\<rparr>
   = (\<lparr>users = [],
       posts = [\<lparr>p_id = ''p1'', userId = ''u1'', content = ''hello'', p_image = '''', likes = [],
                 comments = [], privacy = Private, p_createdAt = 1, p_updatedAt = 1\<rparr>]\<rparr>,
      error_json 403 ''You can only delete your own posts'')
   \<and> findById_post ''p1'' (posts (fst (deletePost ''p1'' ''u1''
        \<lparr>users = [],
         posts = [\<lparr>p_id = ''p1'', userId = ''u1'', content = ''hello'', p_image = '''', likes = [],
                   comments = [], privacy = Private, p_createdAt = 1, p_updatedAt = 1\<rparr>]\<rparr>))) = None"
  using deletePost_guards [of "\<lparr>users = [],
      posts = [\<lparr>p_id = ''p1'', userId = ''u1'', content = ''hello'', p_image = '''', likes = [],
                comments = [], privacy = Private, p_createdAt = 1, p_updatedAt = 1\<rparr>]\<rparr>" "''p1''"]
  by (simp add: findById_post_def)

text \<open>
  C2, as stated, fails: toggling twice does not always give back the like-list. When the
  user is in the list, the first call pulls every occurrence and the second call pushes
  the user at the end, so the user moves behind the others.
\<close>

theorem toggleLike_twice_counterexample:
  "map likes (posts demo_store) = [[''u1'', ''u2'']]
   \<and> map likes (posts (fst (toggleLike 7 ''u1'' ''p1'' (fst (toggleLike 6 ''u1'' ''p1'' demo_store)))))
       = [[''u2'', ''u1'']]"
  by (simp add: demo_store_def hello_post_def toggleLike_def findById_post_def Let_def)

text \<open>
  C2, amended. For every stored post and every user id, the first toggle appends the id
  when it is absent and removes every occurrence when it is present; the second toggle
  does the converse. After both, the like-list has the same members as at the start; it
  is the same list when the id was absent, and otherwise the original list with the id
  removed and appended once at the end. Both calls answer 200.
\<close>

theorem toggleLike_twice:
  assumes "findById_post postId (posts st) = Some p"
    and "st1 = fst (toggleLike t1 uid postId st)"
    and "st2 = fst (toggleLike t2 uid postId st1)"
  shows "\<exists>p1 p2. findById_post postId (posts st1) = Some p1
           \<and> likes p1 = (if uid \<in> set (likes p) then removeAll uid (likes p) else likes p @ [uid])
           \<and> findById_post postId (posts st2) = Some p2
           \<and> likes p2 = (if uid \<in> set (likes p) then removeAll uid (likes p) @ [uid] else likes p)
           \<and> set (likes p2) = set (likes p)
           \<and> status (snd (toggleLike t1 uid postId st)) = 200
           \<and> status (snd (toggleLike t2 uid postId st1)) = 200"
proof -
  have fnd: "List.find (\<lambda>q. p_id q = postId) (posts st) = Some p"
    using assms(1) by (simp add: findById_post_def)
  show ?thesis
  proof (cases "uid \<in> set (likes p)")
    case True
    let ?p1 = "p\<lparr>likes := removeAll uid (likes p), p_updatedAt := t1\<rparr>"
    have s1: "posts st1 = update_first (\<lambda>q. p_id q = postId)
                (\<lambda>q. q\<lparr>likes := removeAll uid (likes q), p_updatedAt := t1\<rparr>) (posts st)"
      and r1: "status (snd (toggleLike t1 uid postId st)) = 200"
      using assms(1,2) True fnd
      by (auto simp: toggleLike_def Let_def findById_post_def find_update_first json_def)
    have f1: "findById_post postId (posts st1) = Some ?p1"
      using fnd by (simp add: s1 findById_post_def find_update_first)
    have nin: "uid \<notin> set (likes ?p1)" by simp
    let ?p2 = "?p1\<lparr>likes := likes ?p1 @ [uid], p_updatedAt := t2\<rparr>"
    have s2: "posts st2 = update_first (\<lambda>q. p_id q = postId)
                (\<lambda>q. q\<lparr>likes := likes q @ [uid], p_updatedAt := t2\<rparr>) (posts st1)"
      and r2: "status (snd (toggleLike t2 uid postId st1)) = 200"
      using f1 nin assms(3) by (auto simp: toggleLike_def json_def)
    have f2: "findById_post postId (posts st2) = Some ?p2"
      using f1 by (simp add: s2 findById_post_def find_update_first)
    from f1 f2 r1 r2 True show ?thesis by auto
  next
    case False
    let ?p1 = "p\<lparr>likes := likes p @ [uid], p_updatedAt := t1\<rparr>"
    have s1: "posts st1 = update_first (\<lambda>q. p_id q = postId)
                (\<lambda>q. q\<lparr>likes := likes q @ [uid], p_updatedAt := t1\<rparr>) (posts st)"
      and r1: "status (snd (toggleLike t1 uid postId st)) = 200"
      using assms(1,2) False by (auto simp: toggleLike_def json_def)
    have f1: "findById_post postId (posts st1) = Some ?p1"
      using fnd by (simp add: s1 findById_post_def find_update_first)
    have isin: "uid \<in> set (likes ?p1)" by simp
    let ?p2 = "?p1\<lparr>likes := removeAll uid (likes ?p1), p_updatedAt := t2\<rparr>"
    have f1': "List.find (\<lambda>q. p_id q = postId) (posts st1) = Some ?p1"
      using f1 by (simp add: findById_post_def)
    have s2: "posts st2 = update_first (\<lambda>q. p_id q = postId)
                (\<lambda>q. q\<lparr>likes := removeAll uid (likes q), p_updatedAt := t2\<rparr>) (posts st1)"
      and r2: "status (snd (toggleLike t2 uid postId st1)) = 200"
      using f1 f1' isin assms(3)
      by (auto simp: toggleLike_def Let_def findById_post_def find_update_first json_def)
    have f2: "findById_post postId (posts st2) = Some ?p2"
      using f1' by (simp add: s2 findById_post_def find_update_first)
    from f1 f2 r1 r2 False show ?thesis by auto
  qed
qed


theorem toggleLike_twice_witness:
  "findById_post ''p1'' (posts demo_store) = Some hello_post
   \<and> (\<exists>p2. findById_post ''p1''
              (posts (fst (toggleLike 7 ''u1'' ''p1'' (fst (toggleLike 6 ''u1'' ''p1'' demo_store))))) = Some p2
          \<and> likes p2 = [''u2'', ''u1'']
          \<and> set (likes p2) = set (likes hello_post))"
proof -
  have h: "findById_post ''p1'' (posts demo_store) = Some hello_post"
    by (simp add: demo_store_def hello_post_def findById_post_def)
  have l: "likes hello_post = [''u1'', ''u2'']" by (simp add: hello_post_def)
  from toggleLike_twice [OF h refl refl, of 6 "''u1''" 7]
  obtain p1 p2 where
    "findById_post ''p1'' (posts (fst (toggleLike 7 ''u1'' ''p1'' (fst (toggleLike 6 ''u1'' ''p1'' demo_store))))) = Some p2"
    "likes p2 = (if ''u1'' \<in> set (likes hello_post) then removeAll ''u1'' (likes hello_post) @ [''u1''] else likes hello_post)"
    "set (likes p2) = set (likes hello_post)"
    by blast
  with h l show ?thesis by simp
qed


text \<open>
  C3, as stated, fails: a request whose email and username are both unused is not always
  stored. UserSchema marks username and email \<^verbatim>\<open>required\<close>, so saving a document
  with an empty username is rejected by validation; the handler forwards the error and the
  answer is 500.
\<close>

theorem signup_counterexample:
  "[] \<notin> set (map username (users demo_store))
   \<and> ''carol@example.com'' \<notin> set (map email (users demo_store))
   \<and> signup demo_env ''u3'' 9 ''zz'' [] ''carol@example.com'' ''pw'' demo_store
       = (demo_store, error_json 500 ''Internal Server Error'')"
  by (simp add: demo_store_def alice_def bob_def signup_def findOne_def saveNewUser_def
        errorHandler_def demo_env_def Let_def)

text \<open>
  C3, amended. A signup whose email is already stored fails with 400, whatever the
  username; one whose username is already stored fails with 400, whatever the email
  (the email is checked first, so the message is the username's only when the email is
  unused). Otherwise, when username and email are non-empty, a new user is appended whose
  password field is the bcrypt hash of the password with cost factor 10, and the answer is
  201 with a message and no token; when username or email is empty nothing is stored and
  the answer is 500. The hash is non-empty and the generated ObjectId is fresh, as bcrypt
  and the ObjectId generator ensure.
\<close>

theorem signup_cases:
  "(mail \<in> set (map email (users st)) \<longrightarrow>
      signup env newId now salt uname mail pw st = (st, error_json 400 ''Email already registered''))
   \<and> (uname \<in> set (map username (users st)) \<longrightarrow>
      fst (signup env newId now salt uname mail pw st) = st
      \<and> status (snd (signup env newId now salt uname mail pw st)) = 400)
   \<and> (uname \<in> set (map username (users st)) \<and> mail \<notin> set (map email (users st)) \<longrightarrow>
      signup env newId now salt uname mail pw st = (st, error_json 400 ''Username already taken''))
   \<and> (mail \<notin> set (map email (users st)) \<and> uname \<notin> set (map username (users st))
        \<and> uname \<noteq> [] \<and> mail \<noteq> [] \<and> bhash env pw 10 salt \<noteq> [] \<and> newId \<notin> set (map u_id (users st)) \<longrightarrow>
      signup env newId now salt uname mail pw st =
        (st\<lparr>users := users st @
               [\<lparr>u_id = newId, username = uname, email = mail, password = bhash env pw 10 salt,
                 profilePicture = [], friends = [], u_createdAt = now, u_updatedAt = now\<rparr>]\<rparr>,
         json 201 (JObj [(''message'', JStr ''User registered successfully'')])))
   \<and> (mail \<notin> set (map email (users st)) \<and> uname \<notin> set (map username (users st))
        \<and> (uname = [] \<or> mail = []) \<longrightarrow>
      signup env newId now salt uname mail pw st = (st, error_json 500 ''Internal Server Error''))"
proof -
  have e: "(findOne (\<lambda>u. email u = mail) (users st) = None) = (mail \<notin> set (map email (users st)))"
    unfolding findOne_def by (rule find_None_map)
  have n: "(findOne (\<lambda>u. username u = uname) (users st) = None) = (uname \<notin> set (map username (users st)))"
    unfolding findOne_def by (rule find_None_map)
  show ?thesis
  proof (cases "findOne (\<lambda>u. email u = mail) (users st)")
    case (Some a)
    with e show ?thesis by (simp add: signup_def error_json_def json_def)
  next
    case None
    note eNone = None
    show ?thesis
    proof (cases "findOne (\<lambda>u. username u = uname) (users st)")
      case (Some b)
      with eNone e n show ?thesis by (simp add: signup_def error_json_def json_def)
    next
      case None
      with eNone e n show ?thesis
        by (simp add: signup_def saveNewUser_def errorHandler_def Let_def)
    qed
  qed
qed

theorem signup_cases_witness:
  "signup demo_env ''u3'' 9 ''zz'' ''carol'' ''alice@example.com'' ''pw'' demo_store
     = (demo_store, error_json 400 ''Email already registered'')
   \<and> signup demo_env ''u3'' 9 ''zz'' ''bob'' ''carol@example.com'' ''pw'' demo_store
     = (demo_store, error_json 400 ''Username already taken'')
   \<and> signup demo_env ''u3'' 9 ''zz'' ''carol'' ''carol@example.com'' ''pw'' demo_store
     = (demo_store\<lparr>users := users demo_store @
          [\<lparr>u_id = ''u3'', username = ''carol'', email = ''carol@example.com'',
            password = ''$2a$10$zzpw'', profilePicture = [], friends = [],
            u_createdAt = 9, u_updatedAt = 9\<rparr>]\<rparr>,
        json 201 (JObj [(''message'', JStr ''User registered successfully'')]))
   \<and> signup demo_env ''u3'' 9 ''zz'' ''carol'' [] ''pw'' demo_store
     = (demo_store, error_json 500 ''Internal Server Error'')"
  using signup_cases [of "''alice@example.com''" demo_store demo_env "''u3''" 9 "''zz''" "''carol''" "''pw''"]
    signup_cases [of "''carol@example.com''" demo_store demo_env "''u3''" 9 "''zz''" "''bob''" "''pw''"]
    signup_cases [of "''carol@example.com''" demo_store demo_env "''u3''" 9 "''zz''" "''carol''" "''pw''"]
    signup_cases [of "[]" demo_store demo_env "''u3''" 9 "''zz''" "''carol''" "''pw''"]
  by (simp add: demo_store_def alice_def bob_def demo_env_def)


text \<open>
  C4. POST /login answers 400 "User not found" when no stored user has the email, and
  400 "Invalid credentials" when the user with that email is stored but the password
  does not verify against the stored hash. Otherwise it answers 200 with a token signed
  over the user's identifier, issued now and expiring 3600 seconds later, together with
  the whole user document, password hash included. Emails of stored users are pairwise
  different (unique index).
\<close>

theorem login_cases:
  assumes "distinct (map email (users st))"
  shows "(mail \<notin> set (map email (users st)) \<longrightarrow>
            login env now mail pw st = error_json 400 ''User not found'')
       \<and> (\<forall>u. u \<in> set (users st) \<and> email u = mail \<and> \<not> bcompare env pw (password u) \<longrightarrow>
            login env now mail pw st = error_json 400 ''Invalid credentials'')
       \<and> (\<forall>u. u \<in> set (users st) \<and> email u = mail \<and> bcompare env pw (password u) \<longrightarrow>
            login env now mail pw st =
              json 200 (JObj [(''token'',
                               JStr (jsign env (JObj [(''id'', JStr (u_id u)),
                                                      (''iat'', JNum (now div 1000)),
                                                      (''exp'', JNum (now div 1000 + 3600))])
                                               (jwt_secret env))),
                              (''user'', JObj (user_doc u))])
            \<and> map_of (user_doc u) ''password'' = Some (JStr (password u)))"
proof -
  have nf: "mail \<notin> set (map email (users st)) \<Longrightarrow> findOne (\<lambda>u. email u = mail) (users st) = None"
    unfolding findOne_def by (simp add: find_None_map)
  have fd: "\<And>u. u \<in> set (users st) \<Longrightarrow> email u = mail \<Longrightarrow> findOne (\<lambda>u. email u = mail) (users st) = Some u"
    unfolding findOne_def using assms find_unique_key [of email "users st"] by blast
  show ?thesis
    using nf fd by (auto simp: login_def token_payload_def user_doc_def)
qed

theorem login_cases_witness:
  "login demo_env 7000 ''carol@example.com'' ''hunter2'' demo_store = error_json 400 ''User not found''
   \<and> login demo_env 7000 ''alice@example.com'' ''swordfish'' demo_store = error_json 400 ''Invalid credentials''
   \<and> login demo_env 7000 ''alice@example.com'' ''hunter2'' demo_store =
       json 200 (JObj [(''token'', JStr ''signed''), (''user'', JObj (user_doc alice))])"
proof -
  have d: "distinct (map email (users demo_store))"
    by (simp add: demo_store_def alice_def bob_def)
  have a: "alice \<in> set (users demo_store)" by (simp add: demo_store_def)
  have n: "''carol@example.com'' \<notin> set (map email (users demo_store))"
    by (simp add: demo_store_def alice_def bob_def)
  have e: "email alice = ''alice@example.com''" by (simp add: alice_def)
  have c1: "\<not> bcompare demo_env ''swordfish'' (password alice)"
    by (simp add: demo_env_def alice_def)
  have c2: "bcompare demo_env ''hunter2'' (password alice)"
    by (simp add: demo_env_def alice_def)
  have j: "\<And>x y. jsign demo_env x y = ''signed''" by (simp add: demo_env_def)
  note L = login_cases [OF d]
  have 1: "login demo_env 7000 ''carol@example.com'' ''hunter2'' demo_store = error_json 400 ''User not found''"
    using L [THEN conjunct1, rule_format, OF n] .
  have 2: "login demo_env 7000 ''alice@example.com'' ''swordfish'' demo_store = error_json 400 ''Invalid credentials''"
    using L [THEN conjunct2, THEN conjunct1, rule_format, OF conjI [OF a conjI [OF e c1]]] .
  have 3: "login demo_env 7000 ''alice@example.com'' ''hunter2'' demo_store =
       json 200 (JObj [(''token'', JStr ''signed''), (''user'', JObj (user_doc alice))])"
    using L [THEN conjunct2, THEN conjunct2, rule_format, OF conjI [OF a conjI [OF e c2]], THEN conjunct1, of 7000]
    by (simp only: j)
  from 1 2 3 show ?thesis by blast
qed


text \<open>
  C5, as stated, fails when the friend id is the user's own id: nothing in the handler
  excludes it, so that user's list, which is then the friend's own list, gains the id.
\<close>

theorem addFriend_self_counterexample:
  "map_option friends (findById_user ''u1'' (users demo_store)) = Some []
   \<and> map_option friends (findById_user ''u1'' (users (fst (addFriend 8 ''u1'' ''u1'' demo_store))))
       = Some [''u1'']"
  by (simp add: demo_store_def alice_def bob_def addFriend_def findById_user_def)

text \<open>
  C5, amended. For every stored user U whose friends list has no duplicates, and every
  friend id F, POST /add-friend appends F to U's list only when F is absent; a second call
  with the same F changes nothing, so F occurs exactly once in U's list. The documents of
  all users other than U, hence F's own friends list whenever F is not U, and all posts are
  unchanged. Both calls answer 200.
\<close>

theorem addFriend_twice:
  assumes "findById_user uid (users st) = Some u"
    and "distinct (friends u)"
    and "st1 = fst (addFriend t1 uid friendId st)"
    and "st2 = fst (addFriend t2 uid friendId st1)"
  shows "\<exists>u1. findById_user uid (users st1) = Some u1
           \<and> friends u1 = (if friendId \<in> set (friends u) then friends u else friends u @ [friendId])
           \<and> st2 = st1
           \<and> count_list (friends u1) friendId = 1
           \<and> (\<forall>i. i \<noteq> uid \<longrightarrow> findById_user i (users st2) = findById_user i (users st))
           \<and> posts st2 = posts st
           \<and> snd (addFriend t1 uid friendId st)
               = json 200 (JObj [(''success'', JBool True), (''message'', JStr ''Friend Added'')])
           \<and> snd (addFriend t2 uid friendId st1)
               = json 200 (JObj [(''success'', JBool True), (''message'', JStr ''Friend Added'')])"
proof -
  have fnd: "List.find (\<lambda>v. u_id v = uid) (users st) = Some u"
    using assms(1) by (simp add: findById_user_def)
  let ?f = "\<lambda>v. v\<lparr>friends := friends v @ [friendId], u_updatedAt := t1\<rparr>"
  let ?u1 = "if friendId \<in> set (friends u) then u else ?f u"
  have s1: "st1 = (if friendId \<in> set (friends u) then st
                   else st\<lparr>users := update_first (\<lambda>v. u_id v = uid) ?f (users st)\<rparr>)"
    and r1: "snd (addFriend t1 uid friendId st)
               = json 200 (JObj [(''success'', JBool True), (''message'', JStr ''Friend Added'')])"
    using assms(1,3) by (auto simp: addFriend_def)
  have f1: "findById_user uid (users st1) = Some ?u1"
    using fnd by (simp add: s1 findById_user_def find_update_first)
  have in1: "friendId \<in> set (friends ?u1)" by simp
  have s2: "st2 = st1"
    and r2: "snd (addFriend t2 uid friendId st1)
               = json 200 (JObj [(''success'', JBool True), (''message'', JStr ''Friend Added'')])"
    using f1 in1 assms(4) by (simp_all add: addFriend_def)
  have d1: "distinct (friends ?u1)" using assms(2) by simp
  have c1: "count_list (friends ?u1) friendId = 1"
    using d1 in1 by (rule count_list_distinct)
  have oth: "\<forall>i. i \<noteq> uid \<longrightarrow> findById_user i (users st2) = findById_user i (users st)"
  proof (intro allI impI)
    fix i :: oid
    assume ne: "i \<noteq> uid"
    have "List.find (\<lambda>v. u_id v = i) (update_first (\<lambda>v. u_id v = uid) ?f (users st))
            = List.find (\<lambda>v. u_id v = i) (users st)"
      by (rule find_update_first_other) (use ne in auto)
    then show "findById_user i (users st2) = findById_user i (users st)"
      by (simp add: s2 s1 findById_user_def)
  qed
  have ps: "posts st2 = posts st" by (simp add: s2 s1)
  have fr: "friends ?u1 = (if friendId \<in> set (friends u) then friends u else friends u @ [friendId])"
    by simp
  from f1 fr s2 c1 oth ps r1 r2 show ?thesis by blast
qed

theorem addFriend_twice_witness:
  "findById_user ''u1'' (users demo_store) = Some alice \<and> distinct (friends alice)
   \<and> (\<exists>u1. findById_user ''u1'' (users (fst (addFriend 8 ''u1'' ''u2'' demo_store))) = Some u1
          \<and> friends u1 = [''u2'']
          \<and> fst (addFriend 9 ''u1'' ''u2'' (fst (addFriend 8 ''u1'' ''u2'' demo_store)))
              = fst (addFriend 8 ''u1'' ''u2'' demo_store)
          \<and> count_list (friends u1) ''u2'' = 1
          \<and> findById_user ''u2'' (users (fst (addFriend 9 ''u1'' ''u2'' (fst (addFriend 8 ''u1'' ''u2'' demo_store)))))
              = Some bob)"
proof -
  have h: "findById_user ''u1'' (users demo_store) = Some alice"
    by (simp add: demo_store_def alice_def findById_user_def)
  have d: "distinct (friends alice)" by (simp add: alice_def)
  have b: "findById_user ''u2'' (users demo_store) = Some bob"
    by (simp add: demo_store_def alice_def bob_def findById_user_def)
  have fa: "friends alice = []" by (simp add: alice_def)
  have ne: "''u2'' \<noteq> ''u1''" by simp
  from addFriend_twice [OF h d refl refl, of 8 "''u2''" 9]
  obtain u1 where
    "findById_user ''u1'' (users (fst (addFriend 8 ''u1'' ''u2'' demo_store))) = Some u1"
    "friends u1 = (if ''u2'' \<in> set (friends alice) then friends alice else friends alice @ [''u2''])"
    "fst (addFriend 9 ''u1'' ''u2'' (fst (addFriend 8 ''u1'' ''u2'' demo_store)))
              = fst (addFriend 8 ''u1'' ''u2'' demo_store)"
    "count_list (friends u1) ''u2'' = 1"
    "\<forall>i. i \<noteq> ''u1'' \<longrightarrow> findById_user i (users (fst (addFriend 9 ''u1'' ''u2'' (fst (addFriend 8 ''u1'' ''u2'' demo_store)))))
         = findById_user i (users demo_store)"
    by blast
  with h d b fa ne show ?thesis by simp
qed


text \<open>
  C6. GET /users answers 200 with, in stored order, exactly the stored users whose
  identifier differs from the given one, each reduced to the three fields _id, username
  and profilePicture; no element of the answer carries the excluded identifier. This
  holds for any number of stored users.
\<close>

theorem listUsers_spec:
  "\<exists>ds. listUsers uid st = json 200 (JArr ds)
     \<and> ds = map (\<lambda>u. JObj [(''_id'', JStr (u_id u)), (''username'', JStr (username u)),
                            (''profilePicture'', JStr (profilePicture u))])
                (filter (\<lambda>u. u_id u \<noteq> uid) (users st))
     \<and> (\<forall>u\<in>set (users st). u_id u \<noteq> uid \<longrightarrow>
           JObj [(''_id'', JStr (u_id u)), (''username'', JStr (username u)),
                 (''profilePicture'', JStr (profilePicture u))] \<in> set ds)
     \<and> (\<forall>d\<in>set ds. \<exists>u\<in>set (users st). u_id u \<noteq> uid
           \<and> d = JObj [(''_id'', JStr (u_id u)), (''username'', JStr (username u)),
                        (''profilePicture'', JStr (profilePicture u))])
     \<and> (\<forall>d\<in>set ds. \<forall>kvs. d = JObj kvs \<longrightarrow> map_of kvs ''_id'' \<noteq> Some (JStr uid))"
proof -
  have p: "\<And>u. select_fields [''_id'', ''username'', ''profilePicture''] (user_doc u)
             = [(''_id'', JStr (u_id u)), (''username'', JStr (username u)),
                (''profilePicture'', JStr (profilePicture u))]"
    by (simp add: select_fields_def user_doc_def)
  show ?thesis
    unfolding listUsers_def p by auto
qed

theorem listUsers_spec_witness:
  "listUsers ''u1'' demo_store =
     json 200 (JArr [JObj [(''_id'', JStr ''u2''), (''username'', JStr ''bob''),
                           (''profilePicture'', JStr [])]])"
proof -
  from listUsers_spec [of "''u1''" demo_store]
  obtain ds where "listUsers ''u1'' demo_store = json 200 (JArr ds)"
    and "ds = map (\<lambda>u. JObj [(''_id'', JStr (u_id u)), (''username'', JStr (username u)),
                            (''profilePicture'', JStr (profilePicture u))])
                (filter (\<lambda>u. u_id u \<noteq> ''u1'') (users demo_store))"
    by blast
  then show ?thesis by (simp add: demo_store_def alice_def bob_def)
qed

text \<open>
  C7. PUT /users/:id/profile-picture answers 404 and changes nothing when no user has
  the id. Otherwise it answers 200 with the updated user document, whose profilePicture
  is the given reference while its identifier, username, email, password, friends and
  creation time are those stored before (only the update stamp that the schema's
  timestamps option maintains moves with the write); every other user document and
  every post is unchanged.
\<close>

theorem updateProfilePicture_spec:
  assumes "distinct (map u_id (users st))"
  shows "(i \<notin> set (map u_id (users st)) \<longrightarrow>
            updateProfilePicture now i pic st =
              (st, json 404 (JObj [(''success'', JBool False), (''message'', JStr ''User not found'')])))
       \<and> (\<forall>u. u \<in> set (users st) \<and> u_id u = i \<longrightarrow>
            snd (updateProfilePicture now i pic st) =
              json 200 (JObj [(''success'', JBool True),
                              (''message'', JStr ''Profile picture updated successfully''),
                              (''user'', JObj (user_doc (u\<lparr>profilePicture := pic, u_updatedAt := now\<rparr>)))])
            \<and> (\<exists>u'. findById_user i (users (fst (updateProfilePicture now i pic st))) = Some u'
                  \<and> profilePicture u' = pic
                  \<and> u_id u' = u_id u \<and> username u' = username u \<and> email u' = email u
                  \<and> password u' = password u \<and> friends u' = friends u
                  \<and> u_createdAt u' = u_createdAt u)
            \<and> users (fst (updateProfilePicture now i pic st)) =
                map (\<lambda>v. if u_id v = i then v\<lparr>profilePicture := pic, u_updatedAt := now\<rparr> else v) (users st)
            \<and> posts (fst (updateProfilePicture now i pic st)) = posts st)"
proof -
  let ?f = "\<lambda>v. v\<lparr>profilePicture := pic, u_updatedAt := now\<rparr>"
  have fu: "findById_user i (update_first (\<lambda>v. u_id v = i) ?f (users st))
              = map_option ?f (findById_user i (users st))"
    unfolding findById_user_def by (rule find_update_first) simp
  have nf: "i \<notin> set (map u_id (users st)) \<Longrightarrow> findById_user i (users st) = None"
    unfolding findById_user_def by (simp add: find_None_map)
  have fd: "\<And>u. u \<in> set (users st) \<Longrightarrow> u_id u = i \<Longrightarrow> findById_user i (users st) = Some u"
    unfolding findById_user_def using assms find_unique_key [of u_id "users st"] by blast
  have mp: "update_first (\<lambda>v. u_id v = i) ?f (users st)
              = map (\<lambda>v. if u_id v = i then ?f v else v) (users st)"
    using assms by (rule update_first_map)
  show ?thesis
  proof (intro conjI impI allI)
    assume "i \<notin> set (map u_id (users st))"
    then show "updateProfilePicture now i pic st =
              (st, json 404 (JObj [(''success'', JBool False), (''message'', JStr ''User not found'')]))"
      using nf fu by (simp add: updateProfilePicture_def Let_def)
  next
    fix u assume u: "u \<in> set (users st) \<and> u_id u = i"
    then have f: "findById_user i (users st) = Some u" using fd by blast
    then have f': "findById_user i (update_first (\<lambda>v. u_id v = i) ?f (users st)) = Some (?f u)"
      using fu by simp
    then have st': "fst (updateProfilePicture now i pic st)
                     = st\<lparr>users := update_first (\<lambda>v. u_id v = i) ?f (users st)\<rparr>"
      and r: "snd (updateProfilePicture now i pic st) =
              json 200 (JObj [(''success'', JBool True),
                              (''message'', JStr ''Profile picture updated successfully''),
                              (''user'', JObj (user_doc (?f u)))])"
      by (simp_all add: updateProfilePicture_def Let_def)
    show "snd (updateProfilePicture now i pic st) =
              json 200 (JObj [(''success'', JBool True),
                              (''message'', JStr ''Profile picture updated successfully''),
                              (''user'', JObj (user_doc (?f u)))])"
      by (rule r)
    show "\<exists>u'. findById_user i (users (fst (updateProfilePicture now i pic st))) = Some u'
                  \<and> profilePicture u' = pic
                  \<and> u_id u' = u_id u \<and> username u' = username u \<and> email u' = email u
                  \<and> password u' = password u \<and> friends u' = friends u
                  \<and> u_createdAt u' = u_createdAt u"
      using f' by (simp add: st')
    show "users (fst (updateProfilePicture now i pic st)) =
                map (\<lambda>v. if u_id v = i then ?f v else v) (users st)"
      using mp by (simp add: st')
    show "posts (fst (updateProfilePicture now i pic st)) = posts st"
      by (simp add: st')
  qed
qed

theorem updateProfilePicture_spec_witness:
  "distinct (map u_id (users demo_store))
   \<and> updateProfilePicture 9 ''u3'' ''/uploads/a.png'' demo_store =
       (demo_store, json 404 (JObj [(''success'', JBool False), (''message'', JStr ''User not found'')]))
   \<and> users (fst (updateProfilePicture 9 ''u2'' ''/uploads/a.png'' demo_store)) =
       [alice, bob\<lparr>profilePicture := ''/uploads/a.png'', u_updatedAt := 9\<rparr>]
   \<and> posts (fst (updateProfilePicture 9 ''u2'' ''/uploads/a.png'' demo_store)) = posts demo_store"
proof -
  have d: "distinct (map u_id (users demo_store))"
    by (simp add: demo_store_def alice_def bob_def)
  have n: "''u3'' \<notin> set (map u_id (users demo_store))"
    by (simp add: demo_store_def alice_def bob_def)
  have b: "bob \<in> set (users demo_store) \<and> u_id bob = ''u2''"
    by (simp add: demo_store_def bob_def)
  have a: "u_id alice \<noteq> ''u2''" by (simp add: alice_def)
  note U = updateProfilePicture_spec [OF d]
  have 1: "updateProfilePicture 9 ''u3'' ''/uploads/a.png'' demo_store =
       (demo_store, json 404 (JObj [(''success'', JBool False), (''message'', JStr ''User not found'')]))"
    using U [THEN conjunct1, rule_format, OF n] .
  have 2: "users (fst (updateProfilePicture 9 ''u2'' ''/uploads/a.png'' demo_store)) =
       map (\<lambda>v. if u_id v = ''u2'' then v\<lparr>profilePicture := ''/uploads/a.png'', u_updatedAt := 9\<rparr> else v)
           (users demo_store)"
    and 3: "posts (fst (updateProfilePicture 9 ''u2'' ''/uploads/a.png'' demo_store)) = posts demo_store"
    using U [THEN conjunct2, rule_format, OF b] by blast+
  have 4: "map (\<lambda>v. if u_id v = ''u2'' then v\<lparr>profilePicture := ''/uploads/a.png'', u_updatedAt := 9\<rparr> else v)
           (users demo_store) = [alice, bob\<lparr>profilePicture := ''/uploads/a.png'', u_updatedAt := 9\<rparr>]"
    using a b by (simp add: demo_store_def)
  from d 1 2 3 4 show ?thesis by simp
qed

text \<open>
  C9. GET /user/:id for a stored user answers 200 with that user's document without the
  password path: identifier, username, email, profilePicture, friends and the two
  timestamps. Whatever the id, the answer is 200 and no object it carries has a password
  key.
\<close>

theorem getUserProfile_spec:
  assumes "distinct (map u_id (users st))"
  shows "(\<forall>u. u \<in> set (users st) \<and> u_id u = i \<longrightarrow>
            getUserProfile i st =
              json 200 (JObj [(''_id'', JStr (u_id u)),
                              (''username'', JStr (username u)),
                              (''email'', JStr (email u)),
                              (''profilePicture'', JStr (profilePicture u)),
                              (''friends'', JArr (map JStr (friends u))),
                              (''createdAt'', JNum (u_createdAt u)),
                              (''updatedAt'', JNum (u_updatedAt u))]))
       \<and> status (getUserProfile i st) = 200
       \<and> (\<forall>kvs. body (getUserProfile i st) = JObj kvs \<longrightarrow> ''password'' \<notin> fst ` set kvs)"
proof -
  have fd: "\<And>u. u \<in> set (users st) \<Longrightarrow> u_id u = i \<Longrightarrow> findById_user i (users st) = Some u"
    unfolding findById_user_def using assms find_unique_key [of u_id "users st"] by blast
  have ex: "\<And>u. exclude_fields [''password''] (user_doc u) =
              [(''_id'', JStr (u_id u)), (''username'', JStr (username u)), (''email'', JStr (email u)),
               (''profilePicture'', JStr (profilePicture u)), (''friends'', JArr (map JStr (friends u))),
               (''createdAt'', JNum (u_createdAt u)), (''updatedAt'', JNum (u_updatedAt u))]"
    by (simp add: exclude_fields_def user_doc_def ids_json_def)
  have 1: "\<forall>u. u \<in> set (users st) \<and> u_id u = i \<longrightarrow>
            getUserProfile i st =
              json 200 (JObj [(''_id'', JStr (u_id u)),
                              (''username'', JStr (username u)),
                              (''email'', JStr (email u)),
                              (''profilePicture'', JStr (profilePicture u)),
                              (''friends'', JArr (map JStr (friends u))),
                              (''createdAt'', JNum (u_createdAt u)),
                              (''updatedAt'', JNum (u_updatedAt u))])"
  proof (intro allI impI)
    fix u assume "u \<in> set (users st) \<and> u_id u = i"
    then have "findById_user i (users st) = Some u" using fd by blast
    then show "getUserProfile i st =
              json 200 (JObj [(''_id'', JStr (u_id u)),
                              (''username'', JStr (username u)),
                              (''email'', JStr (email u)),
                              (''profilePicture'', JStr (profilePicture u)),
                              (''friends'', JArr (map JStr (friends u))),
                              (''createdAt'', JNum (u_createdAt u)),
                              (''updatedAt'', JNum (u_updatedAt u))])"
      by (simp add: getUserProfile_def ex)
  qed
  have 2: "status (getUserProfile i st) = 200"
    by (simp add: getUserProfile_def json_def)
  have 3: "\<forall>kvs. body (getUserProfile i st) = JObj kvs \<longrightarrow> ''password'' \<notin> fst ` set kvs"
    by (auto simp: getUserProfile_def ex json_def split: option.splits)
  from 1 2 3 show ?thesis by blast
qed

theorem getUserProfile_spec_witness:
  "getUserProfile ''u1'' demo_store =
     json 200 (JObj [(''_id'', JStr ''u1''), (''username'', JStr ''alice''),
                     (''email'', JStr ''alice@example.com''), (''profilePicture'', JStr []),
                     (''friends'', JArr []), (''createdAt'', JNum 1), (''updatedAt'', JNum 1)])
   \<and> ''password'' \<notin> fst ` set [(''_id'', JStr ''u1''), (''username'', JStr ''alice''),
                     (''email'', JStr ''alice@example.com''), (''profilePicture'', JStr []),
                     (''friends'', JArr []), (''createdAt'', JNum 1), (''updatedAt'', JNum 1)]"
proof -
  have d: "distinct (map u_id (users demo_store))"
    by (simp add: demo_store_def alice_def bob_def)
  have a: "alice \<in> set (users demo_store) \<and> u_id alice = ''u1''"
    by (simp add: demo_store_def alice_def)
  note G = getUserProfile_spec [OF d, of "''u1''"]
  have 1: "getUserProfile ''u1'' demo_store =
     json 200 (JObj [(''_id'', JStr ''u1''), (''username'', JStr ''alice''),
                     (''email'', JStr ''alice@example.com''), (''profilePicture'', JStr []),
                     (''friends'', JArr []), (''createdAt'', JNum 1), (''updatedAt'', JNum 1)])"
    using G [THEN conjunct1, rule_format, OF a] by (simp add: alice_def)
  then have "body (getUserProfile ''u1'' demo_store) =
     JObj [(''_id'', JStr ''u1''), (''username'', JStr ''alice''),
                     (''email'', JStr ''alice@example.com''), (''profilePicture'', JStr []),
                     (''friends'', JArr []), (''createdAt'', JNum 1), (''updatedAt'', JNum 1)]"
    by (simp add: json_def)
  with G [THEN conjunct2, THEN conjunct2, rule_format] 1 show ?thesis by blast
qed

text \<open>
  C10. When no post has the given id, POST /post/like answers 500 through the error
  middleware and leaves the store as it was, where DELETE /posts/:postId answers 404. When
  no user has the given id, POST /add-friend answers 500 and leaves the store as it was,
  where GET /user/:userId/friends answers 404.
\<close>

theorem missing_record_500:
  "(postId \<notin> set (map p_id (posts st)) \<longrightarrow>
      toggleLike now uid postId st = (st, error_json 500 ''Internal Server Error'')
      \<and> deletePost postId uid st = (st, error_json 404 ''Post not found''))
   \<and> (uid \<notin> set (map u_id (users st)) \<longrightarrow>
      addFriend now uid friendId st = (st, error_json 500 ''Internal Server Error'')
      \<and> listFriends uid st = error_json 404 ''User not found'')"
proof -
  have p: "postId \<notin> set (map p_id (posts st)) \<Longrightarrow> findById_post postId (posts st) = None"
    unfolding findById_post_def by (simp add: find_None_map)
  have u: "uid \<notin> set (map u_id (users st)) \<Longrightarrow> findById_user uid (users st) = None"
    unfolding findById_user_def by (simp add: find_None_map)
  show ?thesis
    using p u by (simp add: toggleLike_def deletePost_def addFriend_def listFriends_def errorHandler_def)
qed

theorem missing_record_500_witness:
  "toggleLike 9 ''u1'' ''p7'' demo_store = (demo_store, error_json 500 ''Internal Server Error'')
   \<and> deletePost ''p7'' ''u1'' demo_store = (demo_store, error_json 404 ''Post not found'')
   \<and> addFriend 9 ''u7'' ''u1'' demo_store = (demo_store, error_json 500 ''Internal Server Error'')
   \<and> listFriends ''u7'' demo_store = error_json 404 ''User not found''"
proof -
  have p: "''p7'' \<notin> set (map p_id (posts demo_store))"
    by (simp add: demo_store_def hello_post_def)
  have u: "''u7'' \<notin> set (map u_id (users demo_store))"
    by (simp add: demo_store_def alice_def bob_def)
  from missing_record_500 [THEN conjunct1, rule_format, OF p, of 9 "''u1''"]
    missing_record_500 [THEN conjunct2, rule_format, OF u, of 9 "''u1''"]
  show ?thesis by blast
qed


text \<open>
  C8, as stated, fails: not every listed post has its owner expanded to the username.
  POST /posts does not look the owner up, so one request naming a user id that nobody
  has stores a post whose reference points to no user, and GET /posts lists that post
  with null as its owner.
\<close>

theorem listPosts_orphan_counterexample:
  "listPosts (run demo_env [CreatePost ''p9'' 1 ''u9'' ''hi'' None None] empty_store) =
     json 200 (JArr [JObj [(''_id'', JStr ''p9''), (''userId'', JNull), (''content'', JStr ''hi''),
                           (''image'', JStr []), (''likes'', JArr []), (''comments'', JArr []),
                           (''privacy'', JStr ''Public''), (''createdAt'', JNum 1),
                           (''updatedAt'', JNum 1)]])"
  by (simp add: empty_store_def createPost_def cast_privacy_def saveNewPost_def trim_def ws_seqs_def strip_leading.simps
        listPosts_def populate_def findById_user_def set_field_def post_doc_def ids_json_def
        privacy_str_def Let_def)

text \<open>
  C8, amended. For every store, GET /posts answers 200 with one entry per stored post, in
  stored order, whatever the post's privacy value; the handler takes no caller and applies
  no filter or limit. Each entry is the post's document with the owner reference
  populated: the owner's username (with its identifier) when the owning user is stored,
  and null when the reference points to no stored user.
\<close>

theorem listPosts_all:
  "\<exists>ds. listPosts st = json 200 (JArr ds)
     \<and> length ds = length (posts st)
     \<and> (\<forall>k<length (posts st).
           ds ! k =
             JObj [(''_id'', JStr (p_id (posts st ! k))),
                   (''userId'',
                      (case findById_user (userId (posts st ! k)) (users st) of
                         None \<Rightarrow> JNull
                       | Some u \<Rightarrow> JObj [(''_id'', JStr (u_id u)), (''username'', JStr (username u))])),
                   (''content'', JStr (content (posts st ! k))),
                   (''image'', JStr (p_image (posts st ! k))),
                   (''likes'', JArr (map JStr (likes (posts st ! k)))),
                   (''comments'', JArr (map comment_doc (comments (posts st ! k)))),
                   (''privacy'', JStr (privacy_str (privacy (posts st ! k)))),
                   (''createdAt'', JNum (p_createdAt (posts st ! k))),
                   (''updatedAt'', JNum (p_updatedAt (posts st ! k)))])"
proof -
  have sel: "\<And>u. select_fields [''username''] (user_doc u)
               = [(''_id'', JStr (u_id u)), (''username'', JStr (username u))]"
    by (simp add: select_fields_def user_doc_def)
  have pop: "\<And>i. populate (users st) [''username''] i =
               (case findById_user i (users st) of
                  None \<Rightarrow> JNull
                | Some u \<Rightarrow> JObj [(''_id'', JStr (u_id u)), (''username'', JStr (username u))])"
    by (simp add: populate_def sel split: option.split)
  have fld: "\<And>v p. set_field ''userId'' v (post_doc p) =
               [(''_id'', JStr (p_id p)), (''userId'', v), (''content'', JStr (content p)),
                (''image'', JStr (p_image p)), (''likes'', JArr (map JStr (likes p))),
                (''comments'', JArr (map comment_doc (comments p))),
                (''privacy'', JStr (privacy_str (privacy p))),
                (''createdAt'', JNum (p_createdAt p)), (''updatedAt'', JNum (p_updatedAt p))]"
    by (simp add: set_field_def post_doc_def ids_json_def)
  let ?row = "\<lambda>p. JObj [(''_id'', JStr (p_id p)),
                   (''userId'',
                      (case findById_user (userId p) (users st) of
                         None \<Rightarrow> JNull
                       | Some u \<Rightarrow> JObj [(''_id'', JStr (u_id u)), (''username'', JStr (username u))])),
                   (''content'', JStr (content p)),
                   (''image'', JStr (p_image p)),
                   (''likes'', JArr (map JStr (likes p))),
                   (''comments'', JArr (map comment_doc (comments p))),
                   (''privacy'', JStr (privacy_str (privacy p))),
                   (''createdAt'', JNum (p_createdAt p)),
                   (''updatedAt'', JNum (p_updatedAt p))]"
  have r: "listPosts st = json 200 (JArr (map ?row (posts st)))"
    unfolding listPosts_def fld pop ..
  show ?thesis
    by (rule exI [of _ "map ?row (posts st)"]) (simp add: r)
qed

theorem listPosts_all_witness:
  "listPosts demo_store =
     json 200 (JArr [JObj [(''_id'', JStr ''p1''),
                           (''userId'', JObj [(''_id'', JStr ''u1''), (''username'', JStr ''alice'')]),
                           (''content'', JStr ''hello''), (''image'', JStr []),
                           (''likes'', JArr [JStr ''u1'', JStr ''u2'']), (''comments'', JArr []),
                           (''privacy'', JStr ''Private''), (''createdAt'', JNum 3),
                           (''updatedAt'', JNum 5)]])"
proof -
  have l: "length (posts demo_store) = 1" "posts demo_store ! 0 = hello_post"
    by (simp_all add: demo_store_def)
  have f: "findById_user (userId hello_post) (users demo_store) = Some alice"
    by (simp add: demo_store_def hello_post_def alice_def findById_user_def)
  from listPosts_all [of demo_store]
  obtain ds where r: "listPosts demo_store = json 200 (JArr ds)"
    and n: "length ds = length (posts demo_store)"
    and e: "\<forall>k<length (posts demo_store).
           ds ! k =
             JObj [(''_id'', JStr (p_id (posts demo_store ! k))),
                   (''userId'',
                      (case findById_user (userId (posts demo_store ! k)) (users demo_store) of
                         None \<Rightarrow> JNull
                       | Some u \<Rightarrow> JObj [(''_id'', JStr (u_id u)), (''username'', JStr (username u))])),
                   (''content'', JStr (content (posts demo_store ! k))),
                   (''image'', JStr (p_image (posts demo_store ! k))),
                   (''likes'', JArr (map JStr (likes (posts demo_store ! k)))),
                   (''comments'', JArr (map comment_doc (comments (posts demo_store ! k)))),
                   (''privacy'', JStr (privacy_str (privacy (posts demo_store ! k)))),
                   (''createdAt'', JNum (p_createdAt (posts demo_store ! k))),
                   (''updatedAt'', JNum (p_updatedAt (posts demo_store ! k)))]"
    by blast
  from n l have "ds = [ds ! 0]" by (cases ds) auto
  moreover from e l f have "ds ! 0 =
     JObj [(''_id'', JStr ''p1''),
                           (''userId'', JObj [(''_id'', JStr ''u1''), (''username'', JStr ''alice'')]),
                           (''content'', JStr ''hello''), (''image'', JStr []),
                           (''likes'', JArr [JStr ''u1'', JStr ''u2'']), (''comments'', JArr []),
                           (''privacy'', JStr ''Private''), (''createdAt'', JNum 3),
                           (''updatedAt'', JNum 5)]"
    by (simp add: hello_post_def alice_def privacy_str_def)
  ultimately show ?thesis using r by simp
qed

end
